theory Spec2Isabelle
  imports Main "HOL-Library.Sublist"
begin

section \<open>Python strings\<close>

text \<open>
  A Python \<open>str\<close> is a sequence of Unicode code points, so it is modelled as a list of
  natural numbers; \<open>py\<close> embeds an ASCII literal. Bullets, dashes and the other
  non-ASCII characters of the parser are written by their code point.
\<close>

type_synonym pystr = "nat list"

definition py :: "string \<Rightarrow> pystr" where
  "py s = map of_char s"

text \<open>
  Whitespace as \<open>str.strip()\<close> and the regular expression class \<open>\s\<close> of a
  \<open>str\<close> pattern both see it (the interpreter's \<open>Py_UNICODE_ISSPACE\<close>).
\<close>

definition is_space :: "nat \<Rightarrow> bool" where
  "is_space c = ((9 \<le> c \<and> c \<le> 13) \<or> (28 \<le> c \<and> c \<le> 32) \<or> c = 133 \<or> c = 160
     \<or> c = 5760 \<or> (8192 \<le> c \<and> c \<le> 8202) \<or> c = 8232 \<or> c = 8233 \<or> c = 8239
     \<or> c = 8287 \<or> c = 12288)"

definition strip_chars :: "(nat \<Rightarrow> bool) \<Rightarrow> pystr \<Rightarrow> pystr" where
  "strip_chars p s = rev (dropWhile p (rev (dropWhile p s)))"

definition strip :: "pystr \<Rightarrow> pystr" where
  "strip s = strip_chars is_space s"

text \<open>\<open>s.split(sep)\<close> for a one-character separator: never an empty list.\<close>

fun split_on :: "nat \<Rightarrow> pystr \<Rightarrow> pystr list" where
  "split_on d [] = [[]]"
| "split_on d (c # s) =
     (if c = d then [] # split_on d s
      else (case split_on d s of [] \<Rightarrow> [[c]] | p # ps \<Rightarrow> (c # p) # ps))"

fun join :: "pystr \<Rightarrow> pystr list \<Rightarrow> pystr" where
  "join sep [] = []"
| "join sep [x] = x"
| "join sep (x # y # ys) = x @ sep @ join sep (y # ys)"

text \<open>\<open>s.replace(old, new)\<close>: leftmost occurrences, not overlapping.\<close>

function replace :: "pystr \<Rightarrow> pystr \<Rightarrow> pystr \<Rightarrow> pystr" where
  "replace old new [] = (if old = [] then new else [])"
| "replace old new (c # s) =
     (if old = [] then new @ c # replace old new s
      else if take (length old) (c # s) = old
           then new @ replace old new (drop (length old) (c # s))
           else c # replace old new s)"
  by pat_completeness auto
termination
  by (relation "measure (\<lambda>(old, new, s). length s)") auto

text \<open>The list comprehension \<open>[l.strip() for l in ls if l.strip()]\<close>.\<close>

definition stripped_nonempty :: "pystr list \<Rightarrow> pystr list" where
  "stripped_nonempty ls = map strip (filter (\<lambda>l. strip l \<noteq> []) ls)"

section \<open>The interpreter's Unicode tables\<close>

text \<open>
  The classes \<open>\w\<close> and \<open>\d\<close> of a \<open>str\<close> pattern consult the Unicode database of
  the interpreter, which is not part of the repository. On ASCII they are fixed; beyond
  ASCII the two tables are a parameter of every function that uses them.
\<close>

record unicode_db =
  alnum :: "nat \<Rightarrow> bool"
  decimal :: "nat \<Rightarrow> bool"

definition is_digit :: "unicode_db \<Rightarrow> nat \<Rightarrow> bool" where
  "is_digit U c = (if c < 128 then 48 \<le> c \<and> c \<le> 57 else decimal U c)"

definition is_word :: "unicode_db \<Rightarrow> nat \<Rightarrow> bool" where
  "is_word U c = (if c < 128
     then (48 \<le> c \<and> c \<le> 57) \<or> (65 \<le> c \<and> c \<le> 90) \<or> (97 \<le> c \<and> c \<le> 122) \<or> c = 95
     else alnum U c)"

text \<open>The tables cut off at U+00FF, for examples whose text is ASCII or Latin-1.\<close>

definition latin1_db :: unicode_db where
  "latin1_db = \<lparr> alnum = (\<lambda>c. c = 170 \<or> c = 178 \<or> c = 179 \<or> c = 181 \<or> c = 185 \<or> c = 186
       \<or> (188 \<le> c \<and> c \<le> 190) \<or> (192 \<le> c \<and> c \<le> 214) \<or> (216 \<le> c \<and> c \<le> 246)
       \<or> (248 \<le> c \<and> c \<le> 255)),
     decimal = (\<lambda>c. False) \<rparr>"

definition is_upper :: "nat \<Rightarrow> bool" where
  "is_upper c = (65 \<le> c \<and> c \<le> 90)"

definition is_lower :: "nat \<Rightarrow> bool" where
  "is_lower c = (97 \<le> c \<and> c \<le> 122)"

text \<open>
  Matching under \<open>re.IGNORECASE\<close> compares the simple lower-case mapping of the text
  character with the lower-cased pattern character, and lets \<open>i\<close> and \<open>s\<close> also match
  dotless i (U+0131) and long s (U+017F). Pattern characters of the parser are ASCII, and
  the only code points beyond ASCII whose lower case is an ASCII letter are U+0130 and
  the Kelvin sign U+212A, so \<open>lower_cp\<close> is the mapping wherever its result matters.
\<close>

definition lower_cp :: "nat \<Rightarrow> nat" where
  "lower_cp c = (if 65 \<le> c \<and> c \<le> 90 then c + 32
                 else if c = 304 then 105 else if c = 8490 then 107 else c)"

definition ci_eq :: "nat \<Rightarrow> nat \<Rightarrow> bool" where
  "ci_eq p c = (lower_cp c = lower_cp p
                \<or> (lower_cp p = 105 \<and> c = 305) \<or> (lower_cp p = 115 \<and> c = 383))"

text \<open>\<open>[A-Za-z]\<close> under \<open>re.IGNORECASE\<close>: the 52 letters and four more.\<close>

definition is_letter_ci :: "nat \<Rightarrow> bool" where
  "is_letter_ci c = (is_lower (lower_cp c) \<or> c = 305 \<or> c = 383)"

section \<open>The regular expressions of module \<open>re\<close>\<close>

text \<open>
  The patterns of the parser repeat only single characters and character classes, so a
  pattern is built from: a class \<open>Cls\<close>, its repetition \<open>Star\<close> (greedy when the flag
  is set, lazy otherwise), sequence, ordered alternative, \<open>^\<close>, \<open>$\<close>, \<open>\b\<close>, a mark
  that records the position (two marks delimit a group) and a lookahead \<open>(?=...)\<close>.
\<close>

datatype re =
    Eps
  | Cls "nat \<Rightarrow> bool"
  | Star "nat \<Rightarrow> bool" bool
  | Seq re re
  | Alt re re
  | Bol
  | Eol
  | Bnd "nat \<Rightarrow> bool"
  | Mark nat
  | Look re

fun wt :: "re \<Rightarrow> nat" where
  "wt (Seq a b) = wt a + wt b + 1"
| "wt (Alt a b) = wt a + wt b + 1"
| "wt (Look a) = wt a + 1"
| "wt _ = 1"

text \<open>\<open>\b\<close>: exactly one of the two neighbours is a word character.\<close>

definition at_boundary :: "(nat \<Rightarrow> bool) \<Rightarrow> nat option \<Rightarrow> pystr \<Rightarrow> bool" where
  "at_boundary w prev s =
     ((case prev of None \<Rightarrow> False | Some c \<Rightarrow> w c) \<noteq> (case s of [] \<Rightarrow> False | c # _ \<Rightarrow> w c))"

text \<open>
  The backtracking matcher. \<open>run k prev s\<close> matches the patterns of the stack \<open>k\<close> one
  after the other against the text \<open>s\<close> that is still ahead; \<open>prev\<close> is the character
  just before (\<open>None\<close> at the start of the string). It returns the first match in the
  order in which the engine of \<open>re\<close> tries them: the marks passed, the last character
  before the end of the match, and the text after it.
\<close>

type_synonym mres = "(nat \<times> pystr) list \<times> nat option \<times> pystr"

function (sequential) run :: "re list \<Rightarrow> nat option \<Rightarrow> pystr \<Rightarrow> mres option" where
  "run [] prev s = Some ([], prev, s)"
| "run (Eps # k) prev s = run k prev s"
| "run (Cls p # k) prev [] = None"
| "run (Cls p # k) prev (c # s) = (if p c then run k (Some c) s else None)"
| "run (Star p g # k) prev [] = run k prev []"
| "run (Star p True # k) prev (c # s) =
     (if p c then (case run (Star p True # k) (Some c) s of
                     Some r \<Rightarrow> Some r
                   | None \<Rightarrow> run k prev (c # s))
      else run k prev (c # s))"
| "run (Star p False # k) prev (c # s) =
     (case run k prev (c # s) of
        Some r \<Rightarrow> Some r
      | None \<Rightarrow> if p c then run (Star p False # k) (Some c) s else None)"
| "run (Seq a b # k) prev s = run (a # b # k) prev s"
| "run (Alt a b # k) prev s =
     (case run (a # k) prev s of Some r \<Rightarrow> Some r | None \<Rightarrow> run (b # k) prev s)"
| "run (Bol # k) prev s = (if prev = None then run k prev s else None)"
| "run (Eol # k) prev s = (if s = [] \<or> s = [10] then run k prev s else None)"
| "run (Bnd w # k) prev s = (if at_boundary w prev s then run k prev s else None)"
| "run (Mark n # k) prev s =
     (case run k prev s of None \<Rightarrow> None | Some (ms, r) \<Rightarrow> Some ((n, s) # ms, r))"
| "run (Look a # k) prev s = (if run [a] prev s = None then None else run k prev s)"
  by pat_completeness auto
termination
  by (relation "inv_image (less_than <*lex*> less_than)
        (\<lambda>(k, prev, s). (length s, sum_list (map wt k)))") auto

text \<open>\<open>re.match\<close>: a match at the start of the string.\<close>

definition re_match :: "re \<Rightarrow> pystr \<Rightarrow> mres option" where
  "re_match r s = run [r] None s"

text \<open>
  \<open>re.search\<close>: the match at the leftmost position that has one; the result also
  carries the text from the start of the match on.
\<close>

fun search :: "re \<Rightarrow> nat option \<Rightarrow> pystr \<Rightarrow> (pystr \<times> mres) option" where
  "search r prev [] = (case run [r] prev [] of None \<Rightarrow> None | Some res \<Rightarrow> Some ([], res))"
| "search r prev (c # s) =
     (case run [r] prev (c # s) of
        None \<Rightarrow> search r (Some c) s
      | Some res \<Rightarrow> Some (c # s, res))"

definition re_search :: "re \<Rightarrow> pystr \<Rightarrow> (pystr \<times> mres) option" where
  "re_search r s = search r None s"

text \<open>\<open>match.group(0)\<close>, and \<open>match.group(i)\<close>, which is \<open>None\<close> for a group not passed.\<close>

definition group0 :: "pystr \<times> mres \<Rightarrow> pystr" where
  "group0 x = (case x of (s, ms, prev, rest) \<Rightarrow> take (length s - length rest) s)"

definition group :: "(nat \<times> pystr) list \<Rightarrow> nat \<Rightarrow> pystr option" where
  "group ms i =
     (case map_of ms (2 * i) of
        None \<Rightarrow> None
      | Some a \<Rightarrow> (case map_of ms (2 * i + 1) of
                     None \<Rightarrow> None
                   | Some b \<Rightarrow> Some (take (length a - length b) a)))"

text \<open>
  \<open>re.sub(r, rep, s)\<close> with a replacement free of group references: every match is
  replaced, scanning from the left; after an empty match the next character is copied.
\<close>

function sub :: "re \<Rightarrow> pystr \<Rightarrow> nat option \<Rightarrow> pystr \<Rightarrow> pystr" where
  "sub r rep prev [] = (case run [r] prev [] of None \<Rightarrow> [] | Some res \<Rightarrow> rep)"
| "sub r rep prev (c # s) =
     (case run [r] prev (c # s) of
        None \<Rightarrow> c # sub r rep (Some c) s
      | Some (ms, prev', rest) \<Rightarrow>
          if length rest < Suc (length s) then rep @ sub r rep prev' rest
          else rep @ c # sub r rep (Some c) s)"
  by pat_completeness auto
termination
  by (relation "measure (\<lambda>(r, rep, prev, s). length s)") auto

definition re_sub :: "re \<Rightarrow> pystr \<Rightarrow> pystr \<Rightarrow> pystr" where
  "re_sub r rep s = sub r rep None s"

text \<open>
  \<open>re.split(r, s)\<close> for a pattern without groups: the pieces between the matches;
  \<open>acc\<close> holds the current piece, reversed.
\<close>

function split_from :: "re \<Rightarrow> nat option \<Rightarrow> pystr \<Rightarrow> pystr \<Rightarrow> pystr list" where
  "split_from r prev acc [] =
     (case run [r] prev [] of None \<Rightarrow> [rev acc] | Some res \<Rightarrow> [rev acc, []])"
| "split_from r prev acc (c # s) =
     (case run [r] prev (c # s) of
        None \<Rightarrow> split_from r (Some c) (c # acc) s
      | Some (ms, prev', rest) \<Rightarrow>
          if length rest < Suc (length s) then rev acc # split_from r prev' [] rest
          else rev acc # split_from r (Some c) [c] s)"
  by pat_completeness auto
termination
  by (relation "measure (\<lambda>(r, prev, acc, s). length s)") auto

definition re_split :: "re \<Rightarrow> pystr \<Rightarrow> pystr list" where
  "re_split r s = split_from r None [] s"

subsection \<open>Writing patterns\<close>

definition chr :: "nat \<Rightarrow> re" where
  "chr c = Cls (\<lambda>x. x = c)"

definition plus :: "(nat \<Rightarrow> bool) \<Rightarrow> re" where
  "plus p = Seq (Cls p) (Star p True)"

definition opt :: "(nat \<Rightarrow> bool) \<Rightarrow> re" where
  "opt p = Alt (Cls p) Eps"

fun seqs :: "re list \<Rightarrow> re" where
  "seqs [] = Eps"
| "seqs (r # rs) = Seq r (seqs rs)"

fun alts :: "re list \<Rightarrow> re" where
  "alts [] = Eps"
| "alts [r] = r"
| "alts (r # r' # rs) = Alt r (alts (r' # rs))"

definition grp :: "nat \<Rightarrow> re \<Rightarrow> re" where
  "grp i r = Seq (Mark (2 * i)) (Seq r (Mark (2 * i + 1)))"

text \<open>A literal word, case-sensitive and under \<open>re.IGNORECASE\<close>.\<close>

definition lit :: "pystr \<Rightarrow> re" where
  "lit w = seqs (map chr w)"

definition lit_ci :: "pystr \<Rightarrow> re" where
  "lit_ci w = seqs (map (\<lambda>p. Cls (ci_eq p)) w)"

definition any_char :: "nat \<Rightarrow> bool" where
  "any_char c = True"

definition not_newline :: "nat \<Rightarrow> bool" where
  "not_newline c = (c \<noteq> 10)"

section \<open>The parser\<close>

subsection \<open>\<open>clean_text\<close>\<close>

text \<open>
  \<open>raw_text.encode('utf-8', 'ignore').decode('utf-8', 'ignore')\<close> drops the code
  points that UTF-8 cannot encode, the surrogates.
\<close>

definition drop_unencodable :: "pystr \<Rightarrow> pystr" where
  "drop_unencodable s = filter (\<lambda>c. \<not> (55296 \<le> c \<and> c \<le> 57343)) s"

text \<open>The loop over \<open>bullet_chars\<close> (U+00B7 twice, U+2022).\<close>

definition strip_bullets :: "pystr \<Rightarrow> pystr" where
  "strip_bullets s =
     fold (\<lambda>ch t. replace [ch] [] (replace [10, ch] [10] t)) [183, 183, 8226] s"

text \<open>The loop over \<open>dash_chars\<close> (U+2013, U+2014, U+2212, U+2013, U+2014).\<close>

definition ascii_dashes :: "pystr \<Rightarrow> pystr" where
  "ascii_dashes s = fold (\<lambda>ch t. replace [ch] [45] t) [8211, 8212, 8722, 8211, 8212] s"

definition multi_dash_re :: re where
  "multi_dash_re = seqs [chr 45, chr 45, Star (\<lambda>c. c = 45) True]"

definition spaced_dash_re :: re where
  "spaced_dash_re = seqs [Star is_space True, chr 45, Star is_space True]"

definition newlines_re :: re where
  "newlines_re = alts [seqs [chr 13, chr 10], chr 13, plus (\<lambda>c. c = 10)]"

definition is_punct :: "nat \<Rightarrow> bool" where
  "is_punct c = (c = 44 \<or> c = 95 \<or> c = 38)"

definition punct_re :: re where
  "punct_re = Cls is_punct"

text \<open>\<open>\s*c7\s*\<close>, \<open>\s*c2\s*\<close> and \<open>\s*b7\s*\<close> under \<open>re.IGNORECASE\<close>.\<close>

definition artifact_re :: "nat \<Rightarrow> nat \<Rightarrow> re" where
  "artifact_re a b = seqs [Star is_space True, Cls (ci_eq a), Cls (ci_eq b), Star is_space True]"

definition non_ascii :: "nat \<Rightarrow> bool" where
  "non_ascii c = (127 < c)"

definition nonascii_re :: re where
  "nonascii_re = plus non_ascii"

definition rule_line_re :: re where
  "rule_line_re = seqs [chr 10, plus (\<lambda>c. c = 45 \<or> c = 46 \<or> c = 183), Star is_space True]"

definition clean_text :: "pystr \<Rightarrow> pystr" where
  "clean_text raw_text =
     (let text = drop_unencodable raw_text;
          text = strip_bullets text;
          text = ascii_dashes text;
          text = re_sub multi_dash_re (py ''-'') text;
          text = re_sub spaced_dash_re (py '' - '') text;
          text = re_sub newlines_re [10] text;
          text = re_sub punct_re [] text;
          text = re_sub (artifact_re 99 55) [] text;
          text = re_sub (artifact_re 99 50) [] text;
          text = re_sub (artifact_re 98 55) [] text;
          text = re_sub nonascii_re [] text;
          text = re_sub rule_line_re [10] text
      in strip text)"

subsection \<open>\<open>preprocess_text\<close>\<close>

definition trailing_space_re :: re where
  "trailing_space_re = seqs [plus is_space, chr 10]"

definition preprocess_text :: "pystr \<Rightarrow> pystr" where
  "preprocess_text raw_text = strip (re_sub trailing_space_re [10] raw_text)"

subsection \<open>\<open>extract_name\<close>\<close>

text \<open>\<open>(?i)^name\s*[:\-]\<close>, and the same followed by \<open>\s*\<close>.\<close>

definition is_label_sep :: "nat \<Rightarrow> bool" where
  "is_label_sep c = (c = 58 \<or> c = 45)"

definition name_label_re :: re where
  "name_label_re = seqs [Bol, lit_ci (py ''name''), Star is_space True, Cls is_label_sep]"

definition name_label_strip_re :: re where
  "name_label_strip_re =
     seqs [Bol, lit_ci (py ''name''), Star is_space True, Cls is_label_sep, Star is_space True]"

text \<open>\<open>@|http|www|\d\<close>\<close>

definition not_a_name_re :: "unicode_db \<Rightarrow> re" where
  "not_a_name_re U = alts [chr 64, lit (py ''http''), lit (py ''www''), Cls (is_digit U)]"

text \<open>\<open>^([A-Z][a-z]+\s+[A-Z][a-z]+)$\<close>\<close>

definition name_shape_re :: re where
  "name_shape_re =
     seqs [Bol,
           grp 1 (seqs [Cls is_upper, plus is_lower, plus is_space, Cls is_upper, plus is_lower]),
           Eol]"

text \<open>Rule 1: the first line with the label.\<close>

fun name_by_label :: "pystr list \<Rightarrow> pystr option" where
  "name_by_label [] = None"
| "name_by_label (line # lines) =
     (if re_match name_label_re line \<noteq> None
      then Some (strip (re_sub name_label_strip_re [] line))
      else name_by_label lines)"

text \<open>Rule 2: line 0, unless it has an at sign, a link or a digit.\<close>

definition name_by_first_line :: "unicode_db \<Rightarrow> pystr list \<Rightarrow> pystr option" where
  "name_by_first_line U lines =
     (case lines of
        [] \<Rightarrow> None
      | first_line # rest \<Rightarrow>
          if re_search (not_a_name_re U) first_line = None then Some (strip first_line)
          else None)"

text \<open>Rule 3: the first of the given lines of the shape Firstname Lastname.\<close>

fun name_by_shape :: "pystr list \<Rightarrow> pystr option" where
  "name_by_shape [] = None"
| "name_by_shape (line # lines) =
     (case re_match name_shape_re (strip line) of
        Some (ms, r) \<Rightarrow> group ms 1
      | None \<Rightarrow> name_by_shape lines)"

definition extract_name :: "unicode_db \<Rightarrow> pystr list \<Rightarrow> pystr option" where
  "extract_name U lines =
     (case name_by_label lines of
        Some n \<Rightarrow> Some n
      | None \<Rightarrow>
          (case name_by_first_line U lines of
             Some n \<Rightarrow> Some n
           | None \<Rightarrow> name_by_shape (take 5 lines)))"

subsection \<open>\<open>extract_email\<close>, \<open>extract_phone\<close>, \<open>extract_location\<close>\<close>

text \<open>\<open>[\w\.-]+@[\w\.-]+\<close>\<close>

definition email_char :: "unicode_db \<Rightarrow> nat \<Rightarrow> bool" where
  "email_char U c = (is_word U c \<or> c = 46 \<or> c = 45)"

definition email_re :: "unicode_db \<Rightarrow> re" where
  "email_re U = seqs [plus (email_char U), chr 64, plus (email_char U)]"

definition extract_email :: "unicode_db \<Rightarrow> pystr \<Rightarrow> pystr option" where
  "extract_email U text = map_option group0 (re_search (email_re U) text)"

text \<open>\<open>\(?\d{3}\)?[-.\s]?\d{3}[-.\s]?\d{4}\<close>\<close>

definition phone_sep :: "nat \<Rightarrow> bool" where
  "phone_sep c = (c = 45 \<or> c = 46 \<or> is_space c)"

definition phone_re :: "unicode_db \<Rightarrow> re" where
  "phone_re U =
     (let d = Cls (is_digit U) in
      seqs [opt (\<lambda>c. c = 40), d, d, d, opt (\<lambda>c. c = 41), opt phone_sep, d, d, d,
            opt phone_sep, d, d, d, d])"

definition extract_phone :: "unicode_db \<Rightarrow> pystr \<Rightarrow> pystr option" where
  "extract_phone U text = map_option group0 (re_search (phone_re U) text)"

text \<open>\<open>\b[A-Z][a-z]+,\s+[A-Z]{2}\b\<close> (in \<open>extract_work_experience\<close> with a group around it).\<close>

definition location_re :: "unicode_db \<Rightarrow> re" where
  "location_re U =
     seqs [Bnd (is_word U),
           grp 1 (seqs [Cls is_upper, plus is_lower, chr 44, plus is_space,
                        Cls is_upper, Cls is_upper]),
           Bnd (is_word U)]"

fun extract_location :: "unicode_db \<Rightarrow> pystr list \<Rightarrow> pystr option" where
  "extract_location U [] = None"
| "extract_location U (line # lines) =
     (if re_search (location_re U) line \<noteq> None then Some (strip line)
      else extract_location U lines)"

subsection \<open>\<open>extract_section\<close>\<close>

text \<open>
  The start and stop keywords are pasted into the pattern; every call site passes plain
  words, and the model takes a keyword as the literal text it is. The stop keywords
  joined by a bar and followed by \<open>|$\<close> give one alternative per keyword and the end of
  the string as the last one; an empty list leaves the empty alternative before it.
\<close>

definition stop_alts :: "pystr list \<Rightarrow> re" where
  "stop_alts ks = alts ((if ks = [] then [Eps] else map lit_ci ks) @ [Eol])"

datatype py_error = AttributeError

text \<open>
  The module defines \<open>extract_section\<close> twice. The first definition, with the pattern
  \<open>start([\s\S]+?)\b(?:stops|$)\<close>, is replaced by the second before any function runs.
\<close>

definition section_re_v1 :: "unicode_db \<Rightarrow> pystr \<Rightarrow> pystr list \<Rightarrow> re" where
  "section_re_v1 U start ks =
     seqs [lit_ci start, grp 1 (Seq (Cls any_char) (Star any_char False)),
           Bnd (is_word U), stop_alts ks]"

text \<open>\<open>match.group(1).strip()\<close> raises when the group is \<open>None\<close>.\<close>

definition stripped_group1 :: "(pystr \<times> mres) option \<Rightarrow> py_error + pystr option" where
  "stripped_group1 match =
     (case match of
        None \<Rightarrow> Inr None
      | Some (s0, ms, r) \<Rightarrow>
          (case group ms 1 of None \<Rightarrow> Inl AttributeError | Some g \<Rightarrow> Inr (Some (strip g))))"

definition extract_section_v1 ::
  "unicode_db \<Rightarrow> pystr \<Rightarrow> pystr \<Rightarrow> pystr list \<Rightarrow> py_error + pystr option" where
  "extract_section_v1 U text start stop_keywords =
     stripped_group1 (re_search (section_re_v1 U start stop_keywords) text)"

text \<open>
  The second definition, \<open>start([\s\S]*?)(?:ends|$)\<close>: the one that \<open>extract_skills\<close>,
  \<open>extract_education\<close> and \<open>extract_work_experience\<close> call.
\<close>

definition section_re :: "pystr \<Rightarrow> pystr list \<Rightarrow> re" where
  "section_re start ks = seqs [lit_ci start, grp 1 (Star any_char False), stop_alts ks]"

definition extract_section :: "pystr \<Rightarrow> pystr \<Rightarrow> pystr list \<Rightarrow> py_error + pystr option" where
  "extract_section text start ends = stripped_group1 (re_search (section_re start ends) text)"

subsection \<open>\<open>extract_skills\<close>\<close>

text \<open>\<open>[,\n;\<bullet>]+\<close> with the bullet U+2022.\<close>

definition skill_delim :: "nat \<Rightarrow> bool" where
  "skill_delim c = (c = 44 \<or> c = 10 \<or> c = 59 \<or> c = 8226)"

definition extract_skills :: "pystr \<Rightarrow> py_error + pystr" where
  "extract_skills text =
     (case extract_section text (py ''SKILLS'')
             [py ''WORK EXPERIENCE'', py ''EDUCATION'', py ''CERTIFICATES''] of
        Inl e \<Rightarrow> Inl e
      | Inr None \<Rightarrow> Inr []
      | Inr (Some skills_block) \<Rightarrow>
          if skills_block = [] then Inr []
          else Inr (join (py '' | '')
                      (stripped_nonempty (re_split (plus skill_delim) skills_block))))"

subsection \<open>\<open>extract_education\<close>\<close>

text \<open>The function returns the empty dictionary, a string, or \<open>None\<close>.\<close>

datatype education = EmptyDict | EduNone | EduText pystr

definition extract_education :: "pystr \<Rightarrow> py_error + education" where
  "extract_education text =
     (case extract_section text (py ''EDUCATION'')
             [py ''SKILLS'', py ''WORK EXPERIENCE'', py ''CERTIFICATES''] of
        Inl e \<Rightarrow> Inl e
      | Inr None \<Rightarrow> Inr EmptyDict
      | Inr (Some edu_block) \<Rightarrow>
          if edu_block = [] then Inr EmptyDict
          else (let clean_lines = stripped_nonempty (split_on 10 edu_block)
                in Inr (if clean_lines \<noteq> [] then EduText (join (py '' | '') clean_lines)
                        else EduNone)))"

subsection \<open>\<open>extract_work_experience\<close>\<close>

record work_entry =
  text_of :: pystr

text \<open>\<open>\n(?=\w.*\s-\s)\<close>\<close>

definition block_split_re :: "unicode_db \<Rightarrow> re" where
  "block_split_re U =
     seqs [chr 10,
           Look (seqs [Cls (is_word U), Star not_newline True, Cls is_space, chr 45,
                       Cls is_space])]"

text \<open>\<open>([A-Za-z]+\s+\d{4})\s*-\s*(current|[A-Za-z]+\s+\d{4})\<close> under \<open>re.IGNORECASE\<close>.\<close>

definition month_year :: "unicode_db \<Rightarrow> re" where
  "month_year U =
     (let d = Cls (is_digit U) in seqs [plus is_letter_ci, plus is_space, d, d, d, d])"

definition date_re :: "unicode_db \<Rightarrow> re" where
  "date_re U =
     seqs [grp 1 (month_year U), Star is_space True, chr 45, Star is_space True,
           grp 2 (Alt (lit_ci (py ''current'')) (month_year U))]"

text \<open>A group inside an f-string: \<open>None\<close> prints as the word.\<close>

definition fmt :: "pystr option \<Rightarrow> pystr" where
  "fmt g = (case g of None \<Rightarrow> py ''None'' | Some x \<Rightarrow> x)"

text \<open>The body of the loop over the blocks: no entry for a block without lines.\<close>

definition block_entry :: "unicode_db \<Rightarrow> pystr option \<Rightarrow> pystr \<Rightarrow> work_entry list" where
  "block_entry U fallback_location block =
     (case stripped_nonempty (split_on 10 block) of
        [] \<Rightarrow> []
      | title_line # others \<Rightarrow>
          (let meta_line = (case others of [] \<Rightarrow> [] | l # ls \<Rightarrow> l);
               description_lines = drop 1 others;
               duration = (case re_search (date_re U) meta_line of
                             None \<Rightarrow> []
                           | Some (s0, ms, r) \<Rightarrow>
                               fmt (group ms 1) @ py '' - '' @ fmt (group ms 2));
               location = (case re_search (location_re U) meta_line of
                             Some match \<Rightarrow> group0 match
                           | None \<Rightarrow> (case fallback_location of None \<Rightarrow> [] | Some l \<Rightarrow> l));
               parts = [title_line]
                 @ (if duration \<noteq> [] \<or> location \<noteq> []
                    then [strip_chars (\<lambda>c. c = 32 \<or> c = 124) (duration @ py '' | '' @ location)]
                    else [])
                 @ (if description_lines \<noteq> [] then [join (py '' '') description_lines]
                    else []);
               full_text = join (py '' | '') (filter (\<lambda>p. p \<noteq> []) parts)
           in [\<lparr> text_of = full_text \<rparr>]))"

definition extract_work_experience ::
  "unicode_db \<Rightarrow> pystr \<Rightarrow> pystr option \<Rightarrow> py_error + work_entry list" where
  "extract_work_experience U text fallback_location =
     (case extract_section text (py ''WORK EXPERIENCE'')
             [py ''EDUCATION'', py ''SKILLS'', py ''CERTIFICATES''] of
        Inl e \<Rightarrow> Inl e
      | Inr None \<Rightarrow> Inr []
      | Inr (Some work_block) \<Rightarrow>
          if work_block = [] then Inr []
          else Inr (concat (map (block_entry U fallback_location)
                              (re_split (block_split_re U) work_block))))"

subsection \<open>\<open>extract_structured_fields\<close>\<close>

record cv_fields =
  name :: "pystr option"
  email :: "pystr option"
  phone :: "pystr option"
  location :: "pystr option"
  skills :: pystr
  education :: education
  work_experience :: "work_entry list"

text \<open>
  The extractors, applied to a text that is already prepared; the dictionary is built
  in the order of its keys, and an exception of any extractor leaves the function.
\<close>

definition assemble :: "unicode_db \<Rightarrow> pystr \<Rightarrow> py_error + cv_fields" where
  "assemble U text =
     (let lines = stripped_nonempty (split_on 10 text) in
      case extract_skills text of
        Inl e \<Rightarrow> Inl e
      | Inr sk \<Rightarrow>
          (case extract_education text of
             Inl e \<Rightarrow> Inl e
           | Inr ed \<Rightarrow>
               (case extract_work_experience U text (extract_location U lines) of
                  Inl e \<Rightarrow> Inl e
                | Inr we \<Rightarrow>
                    Inr \<lparr> name = extract_name U lines,
                          email = extract_email U text,
                          phone = extract_phone U text,
                          location = extract_location U lines,
                          skills = sk,
                          education = ed,
                          work_experience = we \<rparr>)))"

definition extract_structured_fields :: "unicode_db \<Rightarrow> pystr \<Rightarrow> py_error + cv_fields" where
  "extract_structured_fields U text = assemble U (preprocess_text text)"

section \<open>Auxiliary notions for the properties\<close>

text \<open>The marks that every match of a pattern passes.\<close>

fun must :: "re \<Rightarrow> nat set" where
  "must (Mark n) = {n}"
| "must (Seq a b) = must a \<union> must b"
| "must (Alt a b) = must a \<inter> must b"
| "must _ = {}"

text \<open>
  A keyword occurs in a text, case-insensitively, when the text has a factor of the
  length of the keyword whose characters match those of the keyword one by one, in the
  sense in which \<open>re.IGNORECASE\<close> matches a literal.
\<close>

fun prefix_ci :: "pystr \<Rightarrow> pystr \<Rightarrow> bool" where
  "prefix_ci [] s = True"
| "prefix_ci (p # ps) [] = False"
| "prefix_ci (p # ps) (c # s) = (ci_eq p c \<and> prefix_ci ps s)"

fun occurs_ci :: "pystr \<Rightarrow> pystr \<Rightarrow> bool" where
  "occurs_ci w [] = prefix_ci w []"
| "occurs_ci w (c # s) = (prefix_ci w (c # s) \<or> occurs_ci w s)"

definition no_section_keyword :: "pystr \<Rightarrow> bool" where
  "no_section_keyword t =
     (\<not> occurs_ci (py ''SKILLS'') t \<and> \<not> occurs_ci (py ''WORK EXPERIENCE'') t
      \<and> \<not> occurs_ci (py ''EDUCATION'') t \<and> \<not> occurs_ci (py ''CERTIFICATES'') t)"

text \<open>
  A line has the name label when the test of rule 1 of \<open>extract_name\<close> succeeds on it.
  It is a bare label when it consists of the word \<open>name\<close> in any case, whitespace, a
  colon or a dash, and whitespace, and nothing else.
\<close>

definition has_label :: "pystr \<Rightarrow> bool" where
  "has_label line = (re_match name_label_re line \<noteq> None)"

definition bare_label :: "pystr \<Rightarrow> bool" where
  "bare_label line =
     (prefix_ci (py ''name'') line \<and>
      (case dropWhile is_space (drop 4 line) of
         [] \<Rightarrow> False
       | d # ws \<Rightarrow> is_label_sep d \<and> list_all is_space ws))"

text \<open>
  The characters that \<open>clean_text\<close> leaves: ASCII, and neither a carriage return nor
  one of the three punctuation characters it deletes.
\<close>

definition clean_char :: "nat \<Rightarrow> bool" where
  "clean_char c = (c < 128 \<and> c \<noteq> 13 \<and> \<not> is_punct c)"

text \<open>
  The segmentation into lines, as \<open>extract_structured_fields\<close> does it: the text is
  split at its newlines, each line is trimmed, and the empty lines are dropped.
\<close>

definition segment :: "pystr \<Rightarrow> pystr list" where
  "segment text = stripped_nonempty (split_on 10 text)"

section \<open>Evaluating the parser on a given text\<close>

lemmas str_defs = py_def is_space_def strip_chars_def strip_def stripped_nonempty_def

lemmas cls_defs = is_digit_def is_word_def is_upper_def is_lower_def lower_cp_def ci_eq_def
  is_letter_ci_def any_char_def not_newline_def at_boundary_def

lemmas re_defs = re_match_def re_search_def group0_def group_def re_sub_def re_split_def
  chr_def plus_def opt_def grp_def lit_def lit_ci_def

lemmas section_defs = stop_alts_def section_re_def section_re_v1_def stripped_group1_def
  extract_section_def extract_section_v1_def

lemmas clean_defs = clean_text_def drop_unencodable_def strip_bullets_def ascii_dashes_def
  multi_dash_re_def spaced_dash_re_def newlines_re_def punct_re_def is_punct_def
  artifact_re_def nonascii_re_def non_ascii_def rule_line_re_def

lemmas field_defs = extract_structured_fields_def assemble_def preprocess_text_def
  trailing_space_re_def extract_name_def name_by_first_line_def name_label_re_def
  name_label_strip_re_def not_a_name_re_def name_shape_re_def is_label_sep_def
  extract_email_def email_re_def email_char_def extract_phone_def phone_re_def phone_sep_def
  location_re_def extract_skills_def skill_delim_def extract_education_def
  extract_work_experience_def

section \<open>The examples of the specification\<close>

text \<open>
  C5. For the text \<open>SKILLS\nPython, Go; Rust\<bullet>SQL\nWORK EXPERIENCE\<close> (the bullet is
  U+2022), \<open>extract_skills\<close> returns exactly \<open>Python | Go | Rust | SQL\<close>: the section is
  split at the runs of commas, newlines, semicolons and bullets, the pieces are trimmed,
  and the non-empty ones are joined with \<open> | \<close>.
\<close>

theorem extract_skills_example:
  "extract_skills (py ''SKILLS\<newline>Python, Go; Rust'' @ [8226] @ py ''SQL\<newline>WORK EXPERIENCE'')
     = Inr (py ''Python | Go | Rust | SQL'')"
  by (simp add: extract_skills_def skill_delim_def section_defs re_defs cls_defs str_defs)

text \<open>
  C6. For the text \<open>Contact: jane.doe@example.com Phone: 555-123-4567\<close>,
  \<open>extract_email\<close> returns \<open>jane.doe@example.com\<close> and \<open>extract_phone\<close> returns
  \<open>555-123-4567\<close>, whatever the Unicode tables say beyond ASCII.
\<close>

theorem extract_email_phone_example:
  "extract_email U (py ''Contact: jane.doe@example.com Phone: 555-123-4567'')
     = Some (py ''jane.doe@example.com'')
   \<and> extract_phone U (py ''Contact: jane.doe@example.com Phone: 555-123-4567'')
     = Some (py ''555-123-4567'')"
  by (simp add: extract_email_def email_re_def email_char_def extract_phone_def phone_re_def
      phone_sep_def Let_def re_defs cls_defs str_defs)

text \<open>
  C1. For the text
  \<open>WORK EXPERIENCE\nEngineer - Acme\nJune 2019 - current | Austin, TX\nBuilt things.\nEDUCATION\<close>
  the specification expects one entry that carries the duration, the location and the
  description. The function returns two entries: the line of the dates begins with a word
  character and contains \<open> - \<close>, so the split of the blocks starts a new block there; the
  first block has no line for the dates, and in the second the description stands where
  the dates are looked for and is dropped.
\<close>

theorem extract_work_experience_example:
  "extract_work_experience U
     (py ''WORK EXPERIENCE\<newline>Engineer - Acme\<newline>June 2019 - current | Austin, TX\<newline>Built things.\<newline>EDUCATION'')
     None
   = Inr [\<lparr> text_of = py ''Engineer - Acme'' \<rparr>,
          \<lparr> text_of = py ''June 2019 - current | Austin, TX'' \<rparr>]"
  by (simp add: extract_work_experience_def block_entry_def block_split_re_def
      date_re_def month_year_def location_re_def fmt_def Let_def
      section_defs re_defs cls_defs str_defs)

section \<open>Facts about the matcher\<close>

lemma run_suffix:
  "run k prev s = Some (ms, p, rest) \<Longrightarrow> suffix rest s"
proof (induction k prev s arbitrary: ms p rest rule: run.induct)
qed (auto split: if_splits option.splits intro: suffix_ConsI)

lemma run_length: "run k prev s = Some (ms, p, rest) \<Longrightarrow> length rest \<le> length s"
  by (drule run_suffix) (rule suffix_length_le)

lemma run_marks:
  "run k prev s = Some (ms, p, rest) \<Longrightarrow> n \<in> must r \<Longrightarrow> r \<in> set k \<Longrightarrow> n \<in> fst ` set ms"
proof (induction k prev s arbitrary: ms p rest r n rule: run.induct)
qed (auto split: if_splits option.splits)

lemma search_Some:
  "search r prev s = Some (s0, res) \<Longrightarrow> \<exists>prev'. run [r] prev' s0 = Some res \<and> suffix s0 s"
proof (induction s arbitrary: prev)
  case Nil
  then show ?case by (auto split: option.splits)
next
  case (Cons c s)
  then show ?case by (auto split: option.splits intro: suffix_ConsI)
qed

lemma group_present:
  "2 * i \<in> fst ` set ms \<Longrightarrow> 2 * i + 1 \<in> fst ` set ms \<Longrightarrow> group ms i \<noteq> None"
  by (auto simp: group_def map_of_eq_None_iff split: option.splits)

section \<open>No extractor raises\<close>

lemma section_re_must: "2 \<in> must (section_re start ks)" "3 \<in> must (section_re start ks)"
  by (simp_all add: section_re_def grp_def)

text \<open>Group 1 lies on every match of the pattern, so \<open>.strip()\<close> always has a string.\<close>

lemma extract_section_total: "\<exists>r. extract_section t start ks = Inr r"
proof (cases "re_search (section_re start ks) t")
  case None
  then show ?thesis by (simp add: extract_section_def stripped_group1_def)
next
  case (Some x)
  obtain s0 ms p rest where x: "x = (s0, ms, p, rest)" by (cases x) auto
  from Some x obtain prev' where r: "run [section_re start ks] prev' s0 = Some (ms, p, rest)"
    unfolding re_search_def by (auto dest: search_Some)
  have "2 * 1 \<in> fst ` set ms" "2 * 1 + 1 \<in> fst ` set ms"
    using run_marks [OF r section_re_must(1)] run_marks [OF r section_re_must(2)] by simp_all
  then have "group ms 1 \<noteq> None" by (rule group_present)
  with Some x show ?thesis
    by (auto simp: extract_section_def stripped_group1_def)
qed

lemma stripped_nonempty_nonempty: "l \<in> set (stripped_nonempty ls) \<Longrightarrow> l \<noteq> []"
  by (auto simp: stripped_nonempty_def)

lemma join_nonempty: "x \<noteq> [] \<Longrightarrow> join sep (x # xs) \<noteq> []"
  by (cases xs) auto

lemma block_entry_text: "e \<in> set (block_entry U fb block) \<Longrightarrow> text_of e \<noteq> []"
proof (cases "stripped_nonempty (split_on 10 block)")
  case Nil
  assume "e \<in> set (block_entry U fb block)"
  with Nil show ?thesis by (simp add: block_entry_def)
next
  case (Cons title others)
  assume e: "e \<in> set (block_entry U fb block)"
  have "title \<in> set (stripped_nonempty (split_on 10 block))" using Cons by simp
  then have t: "title \<noteq> []" by (rule stripped_nonempty_nonempty)
  from e Cons show ?thesis
    by (auto simp: block_entry_def Let_def t intro!: join_nonempty)
qed

lemma extract_work_experience_total:
  "\<exists>es. extract_work_experience U t fb = Inr es \<and> (\<forall>e\<in>set es. text_of e \<noteq> [])"
proof -
  obtain r where r: "extract_section t (py ''WORK EXPERIENCE'')
             [py ''EDUCATION'', py ''SKILLS'', py ''CERTIFICATES''] = Inr r"
    using extract_section_total by blast
  show ?thesis using r
    by (cases r) (auto simp: extract_work_experience_def dest: block_entry_text)
qed

lemma extract_skills_total: "\<exists>sk. extract_skills t = Inr sk"
proof -
  obtain r where r: "extract_section t (py ''SKILLS'')
             [py ''WORK EXPERIENCE'', py ''EDUCATION'', py ''CERTIFICATES''] = Inr r"
    using extract_section_total by blast
  show ?thesis using r by (cases r) (auto simp: extract_skills_def)
qed

lemma extract_education_total: "\<exists>ed. extract_education t = Inr ed"
proof -
  obtain r where r: "extract_section t (py ''EDUCATION'')
             [py ''SKILLS'', py ''WORK EXPERIENCE'', py ''CERTIFICATES''] = Inr r"
    using extract_section_total by blast
  show ?thesis using r by (cases r) (auto simp: extract_education_def Let_def)
qed

text \<open>
  C9. For every text the assembly returns a record, without an exception: a value of
  the record type, which has exactly the seven fields \<open>name\<close>, \<open>email\<close>, \<open>phone\<close>,
  \<open>location\<close>, \<open>skills\<close>, \<open>education\<close> and \<open>work_experience\<close>, with a string for
  \<open>skills\<close> and a list of entries for \<open>work_experience\<close>; and the text of every entry
  of that list is a non-empty string.
\<close>

theorem fields_shape:
  "\<exists>r. extract_structured_fields U t = Inr r
       \<and> (\<forall>e\<in>set (work_experience r). text_of e \<noteq> [])"
proof -
  let ?t = "preprocess_text t"
  let ?ls = "stripped_nonempty (split_on 10 ?t)"
  obtain sk where sk: "extract_skills ?t = Inr sk" using extract_skills_total by blast
  obtain ed where ed: "extract_education ?t = Inr ed" using extract_education_total by blast
  obtain es where es: "extract_work_experience U ?t (extract_location U ?ls) = Inr es"
    and ne: "\<forall>e\<in>set es. text_of e \<noteq> []"
    using extract_work_experience_total by blast
  show ?thesis
    using sk ed es ne by (simp add: extract_structured_fields_def assemble_def Let_def)
qed

theorem fields_shape_witness:
  "\<exists>r. extract_structured_fields latin1_db (py ''WORK EXPERIENCE\<newline>Dev - Acme'') = Inr r
       \<and> work_experience r = [\<lparr> text_of = py ''Dev - Acme'' \<rparr>]
       \<and> (\<forall>e\<in>set (work_experience r). text_of e \<noteq> [])"
proof -
  obtain r where r: "extract_structured_fields latin1_db (py ''WORK EXPERIENCE\<newline>Dev - Acme'') = Inr r"
    and ne: "\<forall>e\<in>set (work_experience r). text_of e \<noteq> []"
    using fields_shape [of latin1_db "py ''WORK EXPERIENCE\<newline>Dev - Acme''"] by blast
  have "extract_work_experience latin1_db (py ''WORK EXPERIENCE\<newline>Dev - Acme'') None
          = Inr [\<lparr> text_of = py ''Dev - Acme'' \<rparr>]"
    by (simp add: extract_work_experience_def block_entry_def block_split_re_def
        date_re_def month_year_def location_re_def fmt_def Let_def latin1_db_def
        section_defs re_defs cls_defs str_defs)
  moreover have "preprocess_text (py ''WORK EXPERIENCE\<newline>Dev - Acme'')
          = py ''WORK EXPERIENCE\<newline>Dev - Acme''"
    by (simp add: preprocess_text_def trailing_space_re_def re_defs cls_defs str_defs)
  moreover have "extract_location latin1_db
          (stripped_nonempty (split_on 10 (py ''WORK EXPERIENCE\<newline>Dev - Acme''))) = None"
    by (simp add: location_re_def latin1_db_def re_defs cls_defs str_defs)
  ultimately have "work_experience r = [\<lparr> text_of = py ''Dev - Acme'' \<rparr>]"
    using r by (auto simp: extract_structured_fields_def assemble_def Let_def
        split: sum.splits)
  with r ne show ?thesis by blast
qed

section \<open>Sections and their keywords\<close>

lemma run_lit_ci_prefix:
  "run (lit_ci w # k) prev s = Some r \<Longrightarrow> prefix_ci w s"
  unfolding lit_ci_def
proof (induction w arbitrary: prev s)
  case Nil
  then show ?case by simp
next
  case (Cons p ps)
  then show ?case by (cases s) (auto split: if_splits)
qed

lemma run_lit_ci_step:
  "prefix_ci w s \<Longrightarrow> \<exists>prev'. run (lit_ci w # k) prev s = run k prev' (drop (length w) s)"
  unfolding lit_ci_def
proof (induction w arbitrary: prev s)
  case Nil
  then show ?case by auto
next
  case (Cons p ps)
  then show ?case by (cases s) auto
qed

lemma occurs_ci_suffix: "suffix s0 t \<Longrightarrow> prefix_ci w s0 \<Longrightarrow> occurs_ci w t"
proof (induction t)
  case Nil
  then show ?case by simp
next
  case (Cons c t)
  then show ?case by (auto simp: suffix_Cons)
qed





lemma search_lit_ci_occurs:
  "search (Seq (lit_ci start) r) prev t = Some x \<Longrightarrow> occurs_ci start t"
proof -
  assume a: "search (Seq (lit_ci start) r) prev t = Some x"
  obtain s0 res where x: "x = (s0, res)" by (cases x)
  from search_Some [of "Seq (lit_ci start) r" prev t s0 res] a x
  obtain prev' where r: "run [Seq (lit_ci start) r] prev' s0 = Some res" and s: "suffix s0 t"
    by blast
  from r have "prefix_ci start s0" by (auto dest: run_lit_ci_prefix)
  with s show ?thesis by (rule occurs_ci_suffix)
qed

lemma extract_section_None:
  "\<not> occurs_ci start t \<Longrightarrow> extract_section t start ks = Inr None"
proof -
  assume n: "\<not> occurs_ci start t"
  have "re_search (section_re start ks) t = None"
  proof (cases "re_search (section_re start ks) t")
    case (Some x)
    then have "occurs_ci start t"
      unfolding re_search_def section_re_def by (auto dest: search_lit_ci_occurs)
    with n show ?thesis by simp
  qed simp
  then show ?thesis by (simp add: extract_section_def stripped_group1_def)
qed


text \<open>
  C4. The claim: for a text with none of the section keywords, \<open>extract_skills\<close>
  returns the empty string, \<open>extract_education\<close> the absent value and
  \<open>extract_work_experience\<close> the empty list, and none raises. For \<open>extract_education\<close>
  this fails: without a section it returns the empty dictionary, not \<open>None\<close>.
\<close>

theorem no_keyword_education_counterexample:
  "no_section_keyword (py ''John Doe'')
   \<and> extract_education (py ''John Doe'') = Inr EmptyDict
   \<and> extract_education (py ''John Doe'') \<noteq> Inr EduNone"
  by (simp add: no_section_keyword_def extract_education_def section_defs re_defs cls_defs str_defs)

text \<open>
  C4, as amended. For every text in which none of \<open>SKILLS\<close>, \<open>WORK EXPERIENCE\<close>,
  \<open>EDUCATION\<close>, \<open>CERTIFICATES\<close> occurs case-insensitively, no extractor raises,
  \<open>extract_skills\<close> returns the empty string, \<open>extract_education\<close> returns the empty
  dictionary, and \<open>extract_work_experience\<close> returns the empty list.
\<close>

theorem no_keyword_results:
  "no_section_keyword t \<Longrightarrow>
     extract_skills t = Inr [] \<and> extract_education t = Inr EmptyDict
     \<and> extract_work_experience U t fb = Inr []"
  by (simp add: no_section_keyword_def extract_skills_def extract_education_def
      extract_work_experience_def extract_section_None)

theorem no_keyword_results_witness:
  "no_section_keyword (py ''John Doe'')
   \<and> extract_skills (py ''John Doe'') = Inr []
   \<and> extract_education (py ''John Doe'') = Inr EmptyDict
   \<and> extract_work_experience latin1_db (py ''John Doe'') None = Inr []"
proof -
  have h: "no_section_keyword (py ''John Doe'')"
    by (simp add: no_section_keyword_def cls_defs str_defs)
  show ?thesis using h no_keyword_results [OF h, of latin1_db None] by simp
qed




section \<open>The name label\<close>

lemma star_greedy:
  "list_all p ws \<Longrightarrow> rest = [] \<or> \<not> p (hd rest) \<Longrightarrow>
   run k (if ws = [] then prev else Some (last ws)) rest = Some r \<Longrightarrow>
   run (Star p True # k) prev (ws @ rest) = Some r"
proof (induction ws arbitrary: prev)
  case Nil
  then show ?case by (cases rest) auto
next
  case (Cons w ws)
  from Cons.prems have "run k (if ws = [] then Some w else Some (last ws)) rest = Some r"
    by (auto split: if_splits)
  with Cons.IH [of "Some w"] Cons.prems(1,2)
  have "run (Star p True # k) (Some w) (ws @ rest) = Some r" by simp
  with Cons.prems(1) show ?case by simp
qed

lemma bare_label_split:
  assumes "bare_label line"
  obtains ws1 d ws2 where "prefix_ci (py ''name'') line"
    and "drop 4 line = ws1 @ d # ws2" and "list_all is_space ws1"
    and "is_label_sep d" and "list_all is_space ws2"
proof -
  let ?x = "drop 4 line"
  from assms obtain d ws2 where dw: "dropWhile is_space ?x = d # ws2"
    and d: "is_label_sep d" and w2: "list_all is_space ws2" and p: "prefix_ci (py ''name'') line"
    by (auto simp: bare_label_def split: list.splits)
  have "?x = takeWhile is_space ?x @ d # ws2" using dw by (metis takeWhile_dropWhile_id)
  moreover have "list_all is_space (takeWhile is_space ?x)"
    by (simp add: list_all_iff) (meson set_takeWhileD)
  ultimately show ?thesis using that p d w2 by blast
qed

lemma label_sep_not_space: "is_label_sep d \<Longrightarrow> \<not> is_space d"
  by (auto simp: is_label_sep_def is_space_def)

lemma name_length: "length (py ''name'') = 4"
  by (simp add: py_def)

lemma star_greedy_all:
  "list_all p ws \<Longrightarrow> \<exists>q. run [Star p True, Eps] prev ws = Some ([], q, [])"
  using star_greedy [of p ws "[]" "[Eps]" prev] by auto

lemma run_label_strip:
  assumes "bare_label line"
  shows "\<exists>ms p. run [name_label_strip_re] None line = Some (ms, p, [])"
proof -
  from assms obtain ws1 d ws2 where pre: "prefix_ci (py ''name'') line"
    and x: "drop 4 line = ws1 @ d # ws2" and w1: "list_all is_space ws1"
    and d: "is_label_sep d" and w2: "list_all is_space ws2"
    by (rule bare_label_split)
  let ?R4 = "Seq (Star is_space True) Eps"
  let ?R3 = "Seq (Cls is_label_sep) ?R4"
  let ?R2 = "Seq (Star is_space True) ?R3"
  obtain q where e4: "run [Star is_space True, Eps] (Some d) ws2 = Some ([], q, [])"
    using star_greedy_all [OF w2] by blast
  have e3: "run [?R3] p (d # ws2) = Some ([], q, [])" for p
    using e4 d by simp
  have e2: "run [Star is_space True, ?R3] p (ws1 @ d # ws2) = Some ([], q, [])" for p
    using d by (intro star_greedy [OF w1]) (simp_all add: label_sep_not_space e4)
  from run_lit_ci_step [OF pre, of "[?R2]" None] obtain prev' where
    "run [lit_ci (py ''name''), ?R2] None line = run [?R2] prev' (drop (length (py ''name'')) line)"
    by blast
  then have "run [lit_ci (py ''name''), ?R2] None line = run [?R2] prev' (ws1 @ d # ws2)"
    by (simp only: name_length x)
  with e2 have "run [lit_ci (py ''name''), ?R2] None line = Some ([], q, [])"
    by simp
  then show ?thesis by (simp add: name_label_strip_re_def)
qed

lemma run_label:
  assumes "bare_label line"
  shows "has_label line"
proof -
  from assms obtain ws1 d ws2 where pre: "prefix_ci (py ''name'') line"
    and x: "drop 4 line = ws1 @ d # ws2" and w1: "list_all is_space ws1"
    and d: "is_label_sep d" and w2: "list_all is_space ws2"
    by (rule bare_label_split)
  let ?R3 = "Seq (Cls is_label_sep) Eps"
  let ?R2 = "Seq (Star is_space True) ?R3"
  have e3: "run [?R3] p (d # ws2) = Some ([], Some d, ws2)" for p
    using d by simp
  have e2: "run [Star is_space True, ?R3] p (ws1 @ d # ws2) = Some ([], Some d, ws2)" for p
    using d by (intro star_greedy [OF w1]) (simp_all add: label_sep_not_space e3)
  from run_lit_ci_step [OF pre, of "[?R2]" None] obtain prev' where
    "run [lit_ci (py ''name''), ?R2] None line = run [?R2] prev' (drop (length (py ''name'')) line)"
    by blast
  then have "run [lit_ci (py ''name''), ?R2] None line = run [?R2] prev' (ws1 @ d # ws2)"
    by (simp only: name_length x)
  with e2 have "run [lit_ci (py ''name''), ?R2] None line = Some ([], Some d, ws2)"
    by simp
  then show ?thesis by (simp add: has_label_def re_match_def name_label_re_def)
qed

lemma sub_whole:
  "run [r] prev s = Some (ms, p, []) \<Longrightarrow> sub r [] prev s = []"
  by (cases s) (auto split: option.splits)

lemma name_by_label_first:
  "\<forall>l\<in>set pre. \<not> has_label l \<Longrightarrow> has_label line \<Longrightarrow>
   name_by_label (pre @ line # post) = Some (strip (re_sub name_label_strip_re [] line))"
  by (induction pre) (auto simp: has_label_def)

text \<open>
  C10. The claim: if some line has the name label and carries only whitespace after it,
  \<open>extract_name\<close> returns the empty string. Rule 1 returns at the first line with the
  label, so an earlier labelled line with a name decides instead.
\<close>

theorem bare_label_counterexample:
  "bare_label (py ''Name:'') \<and> has_label (py ''Name:'')
   \<and> extract_name latin1_db [py ''Name: Bob'', py ''Name:''] = Some (py ''Bob'')"
  by (simp add: bare_label_def has_label_def extract_name_def name_label_re_def
      name_label_strip_re_def is_label_sep_def re_defs cls_defs str_defs)

text \<open>
  C10, as amended. If the first line that has the name label is a bare label, then
  \<open>extract_name\<close> returns the empty string, not \<open>None\<close>, whatever the other lines
  are: rules 2 and 3 are not consulted.
\<close>

theorem bare_label_name:
  "\<forall>l\<in>set pre. \<not> has_label l \<Longrightarrow> bare_label line \<Longrightarrow>
   extract_name U (pre @ line # post) = Some []"
proof -
  assume a: "\<forall>l\<in>set pre. \<not> has_label l" and b: "bare_label line"
  from b have h: "has_label line" by (rule run_label)
  from run_label_strip [OF b] have "re_sub name_label_strip_re [] line = []"
    by (auto simp: re_sub_def dest: sub_whole)
  with name_by_label_first [OF a h, of post]
  have "name_by_label (pre @ line # post) = Some []"
    by (simp add: strip_def strip_chars_def)
  then show ?thesis by (simp add: extract_name_def)
qed

theorem bare_label_name_witness:
  "\<not> has_label (py ''Curriculum'') \<and> bare_label (py ''NAME -  '')
   \<and> extract_name latin1_db ([py ''Curriculum''] @ py ''NAME -  '' # [py ''Bob Lee'']) = Some []"
proof -
  have a: "\<forall>l\<in>set [py ''Curriculum'']. \<not> has_label l"
    by (simp add: has_label_def name_label_re_def is_label_sep_def re_defs cls_defs str_defs)
  have b: "bare_label (py ''NAME -  '')"
    by (simp add: bare_label_def is_label_sep_def cls_defs str_defs)
  show ?thesis using a b bare_label_name [OF a b, of latin1_db "[py ''Bob Lee'']"] by simp
qed

section \<open>Substitution and the normalizer\<close>

lemma sub_set: "set (sub r rep prev s) \<subseteq> set s \<union> set rep"
proof (induction "length s" arbitrary: s prev rule: less_induct)
  case less
  show ?case
  proof (cases s)
    case Nil
    then show ?thesis by (auto split: option.splits)
  next
    case (Cons c t)
    show ?thesis
    proof (cases "run [r] prev (c # t)")
      case None
      with less [of t "Some c"] Cons show ?thesis by auto
    next
      case (Some x)
      obtain ms p rest where x: "x = (ms, p, rest)" by (cases x) auto
      from Some x have "suffix rest (c # t)" by (auto dest: run_suffix)
      then have sub: "set rest \<subseteq> set (c # t)" by (rule set_mono_suffix)
      show ?thesis
      proof (cases "length rest < Suc (length t)")
        case True
        with less [of rest p] Cons have "set (sub r rep p rest) \<subseteq> set rest \<union> set rep" by simp
        with sub Some x Cons True show ?thesis by auto
      next
        case False
        with less [of t "Some c"] Cons Some x show ?thesis by auto
      qed
    qed
  qed
qed

lemma sub_removes:
  assumes hit: "\<And>prev c s. P c \<Longrightarrow> run [r] prev (c # s) \<noteq> None"
    and nonempty: "\<And>prev s ms p rest. run [r] prev s = Some (ms, p, rest) \<Longrightarrow> length rest < length s"
  shows "x \<in> set (sub r rep prev s) \<Longrightarrow> x \<in> set rep \<or> \<not> P x"
proof (induction "length s" arbitrary: s prev rule: less_induct)
  case less
  show ?case
  proof (cases s)
    case Nil
    with less.prems show ?thesis by (auto split: option.splits)
  next
    case (Cons c t)
    show ?thesis
    proof (cases "run [r] prev (c # t)")
      case None
      with hit have "\<not> P c" by blast
      with less.hyps [of t "Some c"] less.prems Cons None show ?thesis by auto
    next
      case (Some y)
      obtain ms p rest where y: "y = (ms, p, rest)" by (cases y) auto
      from Some y nonempty have l: "length rest < Suc (length t)" by fastforce
      with less.hyps [of rest p] less.prems Cons Some y show ?thesis by auto
    qed
  qed
qed

lemma sub_unchanged:
  assumes miss: "\<And>prev c s. \<not> P c \<Longrightarrow> run [r] prev (c # s) = None"
    and empty: "\<And>prev. run [r] prev [] = None"
  shows "\<forall>c\<in>set s. \<not> P c \<Longrightarrow> sub r rep prev s = s"
  by (induction s arbitrary: prev) (auto simp: miss empty)

lemma run_star_only: "run [Star p g] prev s \<noteq> None"
proof (induction s arbitrary: prev)
  case Nil
  then show ?case by simp
next
  case (Cons c s)
  then show ?case by (cases g) (auto split: option.splits)
qed

lemma run_cls_shorter:
  "run (Cls p # k) prev s = Some (ms, q, rest) \<Longrightarrow> length rest < length s"
  by (cases s) (auto split: if_splits dest: run_length)

lemma strip_chars_idem: "strip_chars p (strip_chars p s) = strip_chars p s"
proof -
  let ?a = "dropWhile p s"
  let ?b = "rev (dropWhile p (rev ?a))"
  have a: "?a = ?b @ rev (takeWhile p (rev ?a))"
    by (metis rev_append rev_rev_ident takeWhile_dropWhile_id)
  have "?b = [] \<or> \<not> p (hd ?b)"
  proof (cases "?b = []")
    case False
    then have "hd ?a = hd ?b" using a by (metis hd_append2)
    moreover have "?a \<noteq> []"
    proof
      assume e: "?a = []"
      have "?b = []" unfolding e by simp
      with False show False by blast
    qed
    then have "\<not> p (hd ?a)" by (rule hd_dropWhile)
    ultimately show ?thesis by simp
  qed simp
  then have 1: "dropWhile p ?b = ?b" by (simp add: dropWhile_eq_self_iff)
  have 2: "dropWhile p (rev ?b) = rev ?b" by simp
  show ?thesis unfolding strip_chars_def by (simp only: 1 rev_rev_ident dropWhile_idem)
qed

lemma set_strip_chars: "set (strip_chars p s) \<subseteq> set s"
  unfolding strip_chars_def by (auto dest!: set_dropWhileD)

lemma replace_absent: "x \<in> set old \<Longrightarrow> x \<notin> set s \<Longrightarrow> replace old new s = s"
proof (induction s)
  case Nil
  then show ?case by auto
next
  case (Cons c s)
  have "take (length old) (c # s) \<noteq> old"
  proof
    assume "take (length old) (c # s) = old"
    then have "set old \<subseteq> set (c # s)" by (metis set_take_subset)
    with Cons.prems show False by auto
  qed
  with Cons show ?case by auto
qed

lemma re_sub_keeps:
  "\<forall>c\<in>set s. Q c \<Longrightarrow> \<forall>c\<in>set rep. Q c \<Longrightarrow> \<forall>c\<in>set (re_sub r rep s). Q c"
  using sub_set [of r rep None s] unfolding re_sub_def by blast

lemma newlines_hit: "run [newlines_re] prev (13 # s) \<noteq> None"
  by (cases s) (auto simp: newlines_re_def chr_def plus_def split: option.splits)

lemma newlines_nonempty:
  "run [newlines_re] prev s = Some (ms, p, rest) \<Longrightarrow> length rest < length s"
  by (cases s)
    (auto simp: newlines_re_def chr_def plus_def split: option.splits if_splits list.splits
          dest: run_length)

lemma no_cr_after_newlines:
  assumes "c \<in> set (re_sub newlines_re [10] s)"
  shows "c \<noteq> 13"
proof -
  have "c \<in> set [10] \<or> \<not> c = 13"
  proof (rule sub_removes [where P = "\<lambda>c. c = 13" and r = newlines_re and prev = None and s = s])
    show "run [newlines_re] prev (c # s) \<noteq> None" if "c = 13" for prev c s
      using that by (simp add: newlines_hit)
    show "length rest < length s" if "run [newlines_re] prev s = Some (ms, p, rest)"
      for prev s ms p rest using that by (rule newlines_nonempty)
    show "c \<in> set (sub newlines_re [10] None s)" using assms by (simp add: re_sub_def)
  qed
  then show ?thesis by auto
qed

lemma no_punct_after:
  assumes "c \<in> set (re_sub punct_re [] s)"
  shows "\<not> is_punct c"
proof -
  have "c \<in> set [] \<or> \<not> is_punct c"
  proof (rule sub_removes [where P = is_punct and r = punct_re and prev = None and s = s])
    show "run [punct_re] prev (c # s) \<noteq> None" if "is_punct c" for prev c s
      using that by (simp add: punct_re_def)
    show "length rest < length s" if "run [punct_re] prev s = Some (ms, p, rest)"
      for prev s ms p rest using that unfolding punct_re_def by (rule run_cls_shorter)
    show "c \<in> set (sub punct_re [] None s)" using assms by (simp add: re_sub_def)
  qed
  then show ?thesis by simp
qed

lemma ascii_after:
  assumes "c \<in> set (re_sub nonascii_re [] s)"
  shows "\<not> non_ascii c"
proof -
  have "c \<in> set [] \<or> \<not> non_ascii c"
  proof (rule sub_removes [where P = non_ascii and r = nonascii_re and prev = None and s = s])
    show "run [nonascii_re] prev (c # s) \<noteq> None" if "non_ascii c" for prev c s
      using that by (simp add: nonascii_re_def plus_def run_star_only)
    show "length rest < length s" if "run [nonascii_re] prev s = Some (ms, p, rest)"
      for prev s ms p rest
    proof -
      from that have "run (Cls non_ascii # [Star non_ascii True]) prev s = Some (ms, p, rest)"
        by (simp add: nonascii_re_def plus_def)
      then show ?thesis by (rule run_cls_shorter)
    qed
    show "c \<in> set (sub nonascii_re [] None s)" using assms by (simp add: re_sub_def)
  qed
  then show ?thesis by simp
qed

lemma replace_absent1: "ch \<notin> set s \<Longrightarrow> replace [ch] new s = s"
  by (rule replace_absent [of ch]) simp_all

lemma replace_absent2: "ch \<notin> set s \<Longrightarrow> replace [a, ch] new s = s"
  by (rule replace_absent [of ch]) simp_all

lemma clean_text_chars: "\<forall>c\<in>set (clean_text x). clean_char c"
proof -
  define t5 where "t5 = re_sub newlines_re [10] (re_sub spaced_dash_re (py '' - '')
     (re_sub multi_dash_re (py ''-'') (ascii_dashes (strip_bullets (drop_unencodable x)))))"
  define t6 where "t6 = re_sub punct_re [] t5"
  define t7 where "t7 = re_sub (artifact_re 98 55) [] (re_sub (artifact_re 99 50) []
     (re_sub (artifact_re 99 55) [] t6))"
  define t8 where "t8 = re_sub nonascii_re [] t7"
  define t9 where "t9 = re_sub rule_line_re [10] t8"
  have c: "clean_text x = strip t9"
    by (simp add: clean_text_def Let_def t5_def t6_def t7_def t8_def t9_def)
  have 5: "\<forall>c\<in>set t5. c \<noteq> 13" unfolding t5_def by (blast dest: no_cr_after_newlines)
  have 6: "\<forall>c\<in>set t6. c \<noteq> 13 \<and> \<not> is_punct c"
    using re_sub_keeps [OF 5, of "[]" punct_re] unfolding t6_def
    by (auto dest: no_punct_after)
  have 7: "\<forall>c\<in>set t7. c \<noteq> 13 \<and> \<not> is_punct c"
    unfolding t7_def by (intro re_sub_keeps 6) simp_all
  have 8: "\<forall>c\<in>set t8. clean_char c"
    using re_sub_keeps [OF 7, of "[]" nonascii_re] unfolding t8_def
    by (auto simp: clean_char_def non_ascii_def dest!: ascii_after)
  have 9: "\<forall>c\<in>set t9. clean_char c"
    unfolding t9_def by (intro re_sub_keeps 8) (simp add: clean_char_def is_punct_def)
  show ?thesis unfolding c strip_def using 9 set_strip_chars [of is_space t9] by blast
qed

lemma clean_text_stripped: "strip (clean_text x) = clean_text x"
  by (simp add: clean_text_def Let_def strip_def strip_chars_idem)

text \<open>
  C3. The claim: \<open>clean_text\<close> is idempotent. It is not: deleting the artifact \<open>c7\<close>
  inside \<open>cc77\<close> leaves \<open>c7\<close>, which a second pass deletes.
\<close>

theorem clean_text_counterexample:
  "clean_text (py ''cc77'') = py ''c7'' \<and> clean_text (clean_text (py ''cc77'')) = []"
  by (simp add: clean_text_def Let_def drop_unencodable_def strip_bullets_def ascii_dashes_def
      multi_dash_re_def spaced_dash_re_def newlines_re_def punct_re_def is_punct_def
      artifact_re_def nonascii_re_def non_ascii_def rule_line_re_def re_defs cls_defs str_defs)

text \<open>
  C3, as amended. The result \<open>y\<close> of \<open>clean_text\<close> holds only ASCII characters other
  than the carriage return, the comma, the underscore and the ampersand, and has no
  whitespace at its ends; so on a second pass the steps that drop or replace single
  characters change nothing: the encoding round trip, the bullets, the dash glyphs, the
  punctuation, the non-ASCII characters and the final trim. (The steps that rewrite
  dashes, newlines, artifacts and rule lines may still change \<open>y\<close>.)
\<close>

theorem clean_text_stable:
  "y = clean_text x \<Longrightarrow>
     (\<forall>c\<in>set y. clean_char c) \<and> drop_unencodable y = y \<and> strip_bullets y = y
     \<and> ascii_dashes y = y \<and> re_sub punct_re [] y = y \<and> re_sub nonascii_re [] y = y
     \<and> strip y = y"
proof -
  assume y: "y = clean_text x"
  have c: "\<forall>c\<in>set y. clean_char c" unfolding y by (rule clean_text_chars)
  then have a: "\<forall>c\<in>set y. c < 128" by (simp add: clean_char_def)
  have 1: "drop_unencodable y = y"
    unfolding drop_unencodable_def using a by (intro filter_True) fastforce
  have n: "183 \<notin> set y" "8226 \<notin> set y" "8211 \<notin> set y" "8212 \<notin> set y" "8722 \<notin> set y"
    using a by fastforce+
  have 2: "strip_bullets y = y"
    by (simp add: strip_bullets_def replace_absent1 replace_absent2 n)
  have 3: "ascii_dashes y = y"
    by (simp add: ascii_dashes_def replace_absent1 n)
  have 4: "re_sub punct_re [] y = y"
    unfolding re_sub_def using c
    by (intro sub_unchanged [of is_punct]) (simp_all add: punct_re_def clean_char_def)
  have 5: "re_sub nonascii_re [] y = y"
    unfolding re_sub_def using a
    by (intro sub_unchanged [of non_ascii]) (auto simp: nonascii_re_def plus_def non_ascii_def)
  have 6: "strip y = y" unfolding y by (rule clean_text_stripped)
  from c 1 2 3 4 5 6 show ?thesis by simp
qed

theorem clean_text_stable_witness:
  "py ''c7 d'' = clean_text (py ''cc77 ,d '')
   \<and> list_all clean_char (py ''c7 d'') \<and> drop_unencodable (py ''c7 d'') = py ''c7 d''
   \<and> strip_bullets (py ''c7 d'') = py ''c7 d'' \<and> ascii_dashes (py ''c7 d'') = py ''c7 d''
   \<and> re_sub punct_re [] (py ''c7 d'') = py ''c7 d''
   \<and> re_sub nonascii_re [] (py ''c7 d'') = py ''c7 d'' \<and> strip (py ''c7 d'') = py ''c7 d''"
proof -
  have h: "py ''c7 d'' = clean_text (py ''cc77 ,d '')"
    by (simp add: clean_defs Let_def re_defs cls_defs str_defs)
  show ?thesis using h clean_text_stable [OF h] by (simp add: list_all_iff)
qed

section \<open>The pipeline\<close>

text \<open>
  C2. The claim: the record of a document is computed from \<open>clean_text\<close> of the raw
  text. No function of the module calls \<open>clean_text\<close>: \<open>extract_structured_fields\<close>
  prepares the text with \<open>preprocess_text\<close> only, and a comma in a name survives.
\<close>

theorem pipeline_counterexample:
  "extract_structured_fields latin1_db (py ''Name: Ann,Lee'')
     = Inr \<lparr> name = Some (py ''Ann,Lee''), email = None, phone = None, location = None,
             skills = [], education = EmptyDict, work_experience = [] \<rparr>
   \<and> extract_structured_fields latin1_db (clean_text (py ''Name: Ann,Lee''))
     = Inr \<lparr> name = Some (py ''AnnLee''), email = None, phone = None, location = None,
             skills = [], education = EmptyDict, work_experience = [] \<rparr>
   \<and> assemble latin1_db (clean_text (py ''Name: Ann,Lee''))
     = Inr \<lparr> name = Some (py ''AnnLee''), email = None, phone = None, location = None,
             skills = [], education = EmptyDict, work_experience = [] \<rparr>"
proof -
  have c: "clean_text (py ''Name: Ann,Lee'') = py ''Name: AnnLee''"
    by (simp add: clean_defs Let_def re_defs cls_defs str_defs)
  have 1: "extract_structured_fields latin1_db (py ''Name: Ann,Lee'')
     = Inr \<lparr> name = Some (py ''Ann,Lee''), email = None, phone = None, location = None,
             skills = [], education = EmptyDict, work_experience = [] \<rparr>"
    by (simp add: field_defs latin1_db_def Let_def section_defs re_defs cls_defs str_defs)
  have 2: "assemble latin1_db (py ''Name: AnnLee'')
     = Inr \<lparr> name = Some (py ''AnnLee''), email = None, phone = None, location = None,
             skills = [], education = EmptyDict, work_experience = [] \<rparr>"
    by (simp add: field_defs latin1_db_def Let_def section_defs re_defs cls_defs str_defs)
  have 3: "preprocess_text (py ''Name: AnnLee'') = py ''Name: AnnLee''"
    by (simp add: preprocess_text_def trailing_space_re_def re_defs cls_defs str_defs)
  show ?thesis unfolding c using 1 2 3 by (simp add: extract_structured_fields_def)
qed

text \<open>
  C2, as amended. For every document the record is computed, without an exception, in
  these stages: \<open>preprocess_text\<close> (not \<open>clean_text\<close>) is applied to the raw text; the
  result is segmented into its trimmed, non-empty lines; \<open>extract_name\<close> and
  \<open>extract_location\<close> read the lines, and \<open>extract_email\<close>, \<open>extract_phone\<close>,
  \<open>extract_skills\<close>, \<open>extract_education\<close> and \<open>extract_work_experience\<close> (with the
  extracted location as its fallback) read the preprocessed text; the seven results are
  the seven fields of the record.
\<close>

theorem pipeline_stages:
  "\<exists>sk ed we.
     extract_skills (preprocess_text raw) = Inr sk
     \<and> extract_education (preprocess_text raw) = Inr ed
     \<and> extract_work_experience U (preprocess_text raw)
           (extract_location U (segment (preprocess_text raw))) = Inr we
     \<and> extract_structured_fields U raw =
           Inr \<lparr> name = extract_name U (segment (preprocess_text raw)),
                 email = extract_email U (preprocess_text raw),
                 phone = extract_phone U (preprocess_text raw),
                 location = extract_location U (segment (preprocess_text raw)),
                 skills = sk,
                 education = ed,
                 work_experience = we \<rparr>"
proof -
  let ?t = "preprocess_text raw"
  obtain sk where sk: "extract_skills ?t = Inr sk" using extract_skills_total by blast
  obtain ed where ed: "extract_education ?t = Inr ed" using extract_education_total by blast
  obtain we where we: "extract_work_experience U ?t (extract_location U (segment ?t)) = Inr we"
    using extract_work_experience_total by blast
  have "extract_structured_fields U raw =
           Inr \<lparr> name = extract_name U (segment ?t), email = extract_email U ?t,
                 phone = extract_phone U ?t, location = extract_location U (segment ?t),
                 skills = sk, education = ed, work_experience = we \<rparr>"
    using sk ed we
    by (simp add: extract_structured_fields_def assemble_def segment_def Let_def)
  with sk ed we show ?thesis by blast
qed

theorem pipeline_stages_witness:
  "\<exists>sk ed we.
     extract_skills (preprocess_text (py ''Name: Ann,Lee'')) = Inr sk
     \<and> extract_education (preprocess_text (py ''Name: Ann,Lee'')) = Inr ed
     \<and> extract_work_experience latin1_db (preprocess_text (py ''Name: Ann,Lee''))
           (extract_location latin1_db (segment (preprocess_text (py ''Name: Ann,Lee'')))) = Inr we
     \<and> extract_structured_fields latin1_db (py ''Name: Ann,Lee'') =
           Inr \<lparr> name = extract_name latin1_db (segment (preprocess_text (py ''Name: Ann,Lee''))),
                 email = extract_email latin1_db (preprocess_text (py ''Name: Ann,Lee'')),
                 phone = extract_phone latin1_db (preprocess_text (py ''Name: Ann,Lee'')),
                 location = extract_location latin1_db (segment (preprocess_text (py ''Name: Ann,Lee''))),
                 skills = sk,
                 education = ed,
                 work_experience = we \<rparr>"
  by (rule pipeline_stages)

end
